theory Spec2Isabelle
  imports Complex_Main
begin

section \<open>Data model of \<open>data_imputation.py\<close>\<close>

text \<open>
  \<open>impute_missing_services(df, original_services_df)\<close> works on two pandas frames.
  A frame is an index (one label per row) and named columns. The rows of \<open>df\<close> are
  modelled as records: the columns the function reads or writes are the named fields, and
  the extension part of the record stands for every other column of the frame.
  Labels are integers, as \<open>read_csv\<close> produces them (a RangeIndex, with gaps after
  \<open>dropna\<close>). A missing cell (NaN) is \<open>None\<close>.

  Floating-point means and draws are modelled as exact rationals; an undefined mean (NaN)
  is \<open>None\<close>.
\<close>

type_synonym label = int

record restaurant =
  City :: "string option"
  Has_Table_booking :: bool
  Has_Online_delivery :: bool
  Is_delivering_now :: bool

record 'a data_frame =
  columns :: "string list"
  rows :: "(label \<times> 'a restaurant_scheme) list"

text \<open>
  The second argument is the copy of the three raw service columns taken in
  \<open>server.py\<close> before they are coerced to booleans: raw text, or NaN.
\<close>

record original_services =
  raw_Has_Table_booking :: "string option"
  raw_Has_Online_delivery :: "string option"
  raw_Is_delivering_now :: "string option"

type_synonym services_frame = "(label \<times> original_services) list"

datatype error = KeyError | IndexingError | IndexError

definition index :: "'a data_frame \<Rightarrow> label list" where
  "index df = map fst (rows df)"

section \<open>The pandas operations the function calls\<close>

subsection \<open>\<open>Series.mean\<close> of a boolean column\<close>

text \<open>The sum of the column (True counts 1) over its length; NaN on an empty column.\<close>

definition mean :: "bool list \<Rightarrow> rat option" where
  "mean bs = (if bs = [] then None
              else Some (of_nat (length (filter (\<lambda>b. b) bs)) / of_nat (length bs)))"

subsection \<open>\<open>df.groupby('City').agg(mean, mean)\<close>\<close>

text \<open>
  Grouping keeps, for every city seen, the size of its group and the running sums of the
  two aggregated columns; rows whose key is NaN belong to no group (\<open>dropna=True\<close> is the
  default). The aggregate divides each sum by the group size. The result has one row per
  city; only lookups by city are made on it, so the order of its rows plays no role.
\<close>

type_synonym group_acc = "nat \<times> nat \<times> nat"

fun group_add :: "string \<Rightarrow> bool \<Rightarrow> bool \<Rightarrow> (string \<times> group_acc) list
                   \<Rightarrow> (string \<times> group_acc) list" where
  "group_add c b d [] = [(c, (1, of_bool b, of_bool d))]"
| "group_add c b d ((c', (n, sb, sd)) # gs) =
     (if c = c' then (c', (Suc n, sb + of_bool b, sd + of_bool d)) # gs
      else (c', (n, sb, sd)) # group_add c b d gs)"

fun groupby_City :: "(label \<times> 'a restaurant_scheme) list \<Rightarrow> (string \<times> group_acc) list" where
  "groupby_City [] = []"
| "groupby_City ((l, r) # rs) =
     (case City r of
        None \<Rightarrow> groupby_City rs
      | Some c \<Rightarrow> group_add c (Has_Table_booking r) (Has_Online_delivery r) (groupby_City rs))"

definition agg_mean :: "string \<times> group_acc \<Rightarrow> string \<times> rat \<times> rat" where
  "agg_mean g = (case g of (c, (n, sb, sd)) \<Rightarrow> (c, of_nat sb / of_nat n, of_nat sd / of_nat n))"

definition city_probabilities :: "'a data_frame \<Rightarrow> (string \<times> rat \<times> rat) list" where
  "city_probabilities df = map agg_mean (groupby_City (rows df))"

definition global_prob_booking :: "'a data_frame \<Rightarrow> rat option" where
  "global_prob_booking df = mean (map (\<lambda>(l, r). Has_Table_booking r) (rows df))"

definition global_prob_delivery :: "'a data_frame \<Rightarrow> rat option" where
  "global_prob_delivery df = mean (map (\<lambda>(l, r). Has_Online_delivery r) (rows df))"

subsection \<open>\<open>original_services_df.isnull().all(axis=1)\<close>\<close>

definition isnull_all :: "original_services \<Rightarrow> bool" where
  "isnull_all s \<longleftrightarrow> raw_Has_Table_booking s = None \<and> raw_Has_Online_delivery s = None
                     \<and> raw_Is_delivering_now s = None"

definition no_services_mask :: "services_frame \<Rightarrow> (label \<times> bool) list" where
  "no_services_mask osd = map (\<lambda>(l, s). (l, isnull_all s)) osd"

subsection \<open>\<open>df[no_services_mask]\<close>: indexing by a boolean Series\<close>

text \<open>
  pandas (version 2) first aligns the boolean Series with the frame. When the two indexes are
  equal the Series is used as it is. Otherwise each label of the frame, in the order of the
  frame, is looked up in the index of the Series (\<open>get_indexer_for\<close>): a label that is not
  found raises IndexingError, and when all are found the values of the Series are taken at
  the positions found. A label the Series holds several times contributes all its entries,
  so the array taken can be longer than the frame; labels the frame does not have are dropped.
\<close>

definition matches :: "(label \<times> bool) list \<Rightarrow> label \<Rightarrow> bool list option" where
  "matches key l =
     (case map snd (filter (\<lambda>p. fst p = l) key) of [] \<Rightarrow> None | b # bs \<Rightarrow> Some (b # bs))"

definition check_bool_indexer :: "label list \<Rightarrow> (label \<times> bool) list \<Rightarrow> error + bool list" where
  "check_bool_indexer ix key =
     (if map fst key = ix then Inr (map snd key)
      else (case those (map (matches key) ix) of
              None \<Rightarrow> Inl IndexingError
            | Some bss \<Rightarrow> Inr (concat bss)))"

text \<open>
  The frame then selects by the boolean array: all rows when every entry is True, otherwise
  the rows at the positions of the True entries; a position beyond the last row raises
  IndexError. The selected rows keep their labels (\<open>.copy()\<close> of a selection).
\<close>

definition nonzero :: "bool list \<Rightarrow> nat list" where
  "nonzero bs = filter (\<lambda>p. bs ! p) [0..<length bs]"

definition getitem_bool_array ::
    "(label \<times> 'a restaurant_scheme) list \<Rightarrow> bool list
      \<Rightarrow> error + (label \<times> 'a restaurant_scheme) list" where
  "getitem_bool_array rs bs =
     (if list_all (\<lambda>b. b) bs then Inr rs
      else if list_ex (\<lambda>p. length rs \<le> p) (nonzero bs) then Inl IndexError
      else Inr (map ((!) rs) (nonzero bs)))"

definition restaurants_to_impute ::
    "'a data_frame \<Rightarrow> services_frame \<Rightarrow> error + (label \<times> 'a restaurant_scheme) list" where
  "restaurants_to_impute df osd =
     (case check_bool_indexer (index df) (no_services_mask osd) of
        Inl e \<Rightarrow> Inl e
      | Inr bs \<Rightarrow> getitem_bool_array (rows df) bs)"

subsection \<open>\<open>merge(city_probabilities, on='City', how='left')\<close> and \<open>fillna\<close>\<close>

text \<open>
  A left merge on a column keeps the rows of the left frame in their order and adds the
  columns of the matching row of the right frame, NaN where no row matches (the right
  frame holds each city once, and no NaN city). A merge on columns ignores the indexes
  of both frames: its result has a new RangeIndex \<open>0, 1, ..., k - 1\<close>. The merged frame is
  therefore a plain list, the position of a row being its label.
\<close>

record 'a merged_row =
  left_row :: "'a restaurant_scheme"
  prob_booking :: "rat option"
  prob_delivery :: "rat option"

definition city_lookup ::
    "(string \<times> rat \<times> rat) list \<Rightarrow> 'a restaurant_scheme \<Rightarrow> (rat \<times> rat) option" where
  "city_lookup cp r = (case City r of None \<Rightarrow> None | Some c \<Rightarrow> map_of cp c)"

definition merge_row :: "(string \<times> rat \<times> rat) list \<Rightarrow> 'a restaurant_scheme \<Rightarrow> 'a merged_row" where
  "merge_row cp r =
     (case city_lookup cp r of
        None \<Rightarrow> \<lparr>left_row = r, prob_booking = None, prob_delivery = None\<rparr>
      | Some (pb, pd) \<Rightarrow> \<lparr>left_row = r, prob_booking = Some pb, prob_delivery = Some pd\<rparr>)"

definition merge_left ::
    "(label \<times> 'a restaurant_scheme) list \<Rightarrow> (string \<times> rat \<times> rat) list \<Rightarrow> 'a merged_row list" where
  "merge_left sel cp = map (\<lambda>(l, r). merge_row cp r) sel"

definition fillna :: "rat option \<Rightarrow> rat option \<Rightarrow> rat option" where
  "fillna v x = (case x of None \<Rightarrow> v | Some p \<Rightarrow> Some p)"

text \<open>
  The frame \<open>restaurants_to_impute\<close> after the merge and the two \<open>fillna\<close> calls.
  Each call is \<open>restaurants_to_impute[column].fillna(value, inplace=True)\<close>; it is
  modelled as updating the column of the frame, which is what the code relies on (pandas
  without copy-on-write).
\<close>

definition merged_filled :: "'a data_frame \<Rightarrow> (label \<times> 'a restaurant_scheme) list \<Rightarrow> 'a merged_row list" where
  "merged_filled df sel =
     map (\<lambda>m. m\<lparr>prob_booking := fillna (global_prob_booking df) (prob_booking m),
                prob_delivery := fillna (global_prob_delivery df) (prob_delivery m)\<rparr>)
         (merge_left sel (city_probabilities df))"

subsection \<open>\<open>np.random.rand(n) < column\<close>\<close>

text \<open>
  The random source is a fixed sequence of draws. The first call of \<open>rand\<close> takes the
  draws \<open>0, ..., k - 1\<close>, the second the draws \<open>k, ..., 2k - 1\<close>. A comparison with
  NaN is False.
\<close>

definition rand :: "(nat \<Rightarrow> rat) \<Rightarrow> nat \<Rightarrow> nat \<Rightarrow> rat list" where
  "rand draws off n = map draws [off..<off + n]"

definition less_prob :: "rat \<Rightarrow> rat option \<Rightarrow> bool" where
  "less_prob d p = (case p of None \<Rightarrow> False | Some q \<Rightarrow> d < q)"

definition imputed_booking :: "(nat \<Rightarrow> rat) \<Rightarrow> 'a merged_row list \<Rightarrow> bool list" where
  "imputed_booking draws ms =
     map (\<lambda>(d, m). less_prob d (prob_booking m)) (zip (rand draws 0 (length ms)) ms)"

definition imputed_delivery :: "(nat \<Rightarrow> rat) \<Rightarrow> 'a merged_row list \<Rightarrow> bool list" where
  "imputed_delivery draws ms =
     map (\<lambda>(d, m). less_prob d (prob_delivery m)) (zip (rand draws (length ms) (length ms)) ms)"

subsection \<open>\<open>df.loc[labels, column] = series\<close>\<close>

text \<open>
  Setting through \<open>.loc\<close> with a list of labels raises KeyError when one of the labels is
  not in the index of the frame. Otherwise every row whose label is listed receives the
  value the Series holds at that label; the Series here is indexed by the same labels.
\<close>

definition loc_row ::
    "(bool \<Rightarrow> 'a restaurant_scheme \<Rightarrow> 'a restaurant_scheme) \<Rightarrow> label list \<Rightarrow> bool list
      \<Rightarrow> label \<times> 'a restaurant_scheme \<Rightarrow> label \<times> 'a restaurant_scheme" where
  "loc_row upd labels vals p =
     (case p of (l, r) \<Rightarrow>
        (case map_of (zip labels vals) l of None \<Rightarrow> (l, r) | Some v \<Rightarrow> (l, upd v r)))"

definition loc_set ::
    "(bool \<Rightarrow> 'a restaurant_scheme \<Rightarrow> 'a restaurant_scheme) \<Rightarrow> label list \<Rightarrow> bool list
      \<Rightarrow> (label \<times> 'a restaurant_scheme) list \<Rightarrow> error + (label \<times> 'a restaurant_scheme) list" where
  "loc_set upd labels vals rs =
     (if list_ex (\<lambda>t. t \<notin> set (map fst rs)) labels then Inl KeyError
      else Inr (map (loc_row upd labels vals) rs))"

definition set_booking :: "bool \<Rightarrow> 'a restaurant_scheme \<Rightarrow> 'a restaurant_scheme" where
  "set_booking v r = r\<lparr>Has_Table_booking := v\<rparr>"

definition set_delivery :: "bool \<Rightarrow> 'a restaurant_scheme \<Rightarrow> 'a restaurant_scheme" where
  "set_delivery v r = r\<lparr>Has_Online_delivery := v\<rparr>"

text \<open>The index of the merged frame: \<open>RangeIndex(0, k)\<close>.\<close>

definition range_index :: "nat \<Rightarrow> label list" where
  "range_index k = map int [0..<k]"

section \<open>\<open>impute_missing_services\<close>\<close>

text \<open>
  The grouping and the means raise KeyError when the frame lacks one of the three columns
  they name. The merge adds the columns \<open>prob_booking\<close> and \<open>prob_delivery\<close> to the
  selected rows; when the table already has a column of one of these names the merge renames
  both clashing columns (suffixes \<open>_x\<close> and \<open>_y\<close>), and reading the column back by its
  name for \<open>fillna\<close> raises KeyError. (A table that holds a suffixed name as well fails
  too, in some versions in the merge itself; the model reports KeyError for it.) The two
  writes address the frame by
  \<open>restaurants_to_impute.index\<close>, which after the merge is the new RangeIndex and no longer
  the labels of the selected rows.
\<close>

definition has_columns :: "'a data_frame \<Rightarrow> bool" where
  "has_columns df \<longleftrightarrow> ''City'' \<in> set (columns df) \<and> ''Has Table booking'' \<in> set (columns df)
                       \<and> ''Has Online delivery'' \<in> set (columns df)"

definition merge_keeps_names :: "'a data_frame \<Rightarrow> bool" where
  "merge_keeps_names df \<longleftrightarrow>
     ''prob_booking'' \<notin> set (columns df) \<and> ''prob_delivery'' \<notin> set (columns df)"

definition impute_missing_services ::
    "(nat \<Rightarrow> rat) \<Rightarrow> 'a data_frame \<Rightarrow> services_frame \<Rightarrow> error + 'a data_frame" where
  "impute_missing_services draws df original_services_df =
     (if \<not> has_columns df then Inl KeyError
      else
        (case restaurants_to_impute df original_services_df of
           Inl e \<Rightarrow> Inl e
         | Inr sel \<Rightarrow>
             if \<not> merge_keeps_names df then Inl KeyError
             else
               (let ms = merged_filled df sel;
                    ix = range_index (length ms)
                in (case loc_set set_booking ix (imputed_booking draws ms) (rows df) of
                      Inl e \<Rightarrow> Inl e
                    | Inr rs1 \<Rightarrow>
                        (case loc_set set_delivery ix (imputed_delivery draws ms) rs1 of
                           Inl e \<Rightarrow> Inl e
                         | Inr rs2 \<Rightarrow> Inr (df\<lparr>rows := rs2\<rparr>))))))"

section \<open>Notions used to state the properties\<close>

text \<open>
  The arithmetic mean of a boolean column as the specification words it: the sum of the
  values, True counting 1 and False 0, divided by their number; undefined on no values.
\<close>

definition arithmetic_mean :: "bool list \<Rightarrow> rat option" where
  "arithmetic_mean bs =
     (if bs = [] then None
      else Some (sum_list (map (\<lambda>b. if b then 1 else 0) bs) / of_nat (length bs)))"

text \<open>The column of an attribute restricted to the rows of one city, and over the whole table.\<close>

definition city_column ::
    "('a restaurant_scheme \<Rightarrow> bool) \<Rightarrow> string \<Rightarrow> 'a data_frame \<Rightarrow> bool list" where
  "city_column attr c df = map (\<lambda>(l, r). attr r) (filter (\<lambda>(l, r). City r = Some c) (rows df))"

definition whole_column :: "('a restaurant_scheme \<Rightarrow> bool) \<Rightarrow> 'a data_frame \<Rightarrow> bool list" where
  "whole_column attr df = map (\<lambda>(l, r). attr r) (rows df)"

text \<open>
  The labels the two \<open>.loc\<close> writes address (\<open>restaurants_to_impute.index\<close> at the
  time of the writes), and the positions of the rows of the frame that carry one of them.
\<close>

definition write_labels :: "'a data_frame \<Rightarrow> services_frame \<Rightarrow> label list" where
  "write_labels df osd =
     (case restaurants_to_impute df osd of
        Inl e \<Rightarrow> []
      | Inr sel \<Rightarrow> range_index (length (merged_filled df sel)))"

definition written_positions :: "'a data_frame \<Rightarrow> services_frame \<Rightarrow> nat list" where
  "written_positions df osd =
     filter (\<lambda>i. index df ! i \<in> set (write_labels df osd)) [0..<length (rows df)]"

text \<open>
  A row after the two writes have reached it: each service field holds the value its imputed
  Series has at the label of the row.
\<close>

definition written_row ::
    "(nat \<Rightarrow> rat) \<Rightarrow> 'a data_frame \<Rightarrow> (label \<times> 'a restaurant_scheme) list
      \<Rightarrow> label \<times> 'a restaurant_scheme \<Rightarrow> label \<times> 'a restaurant_scheme" where
  "written_row draws df sel p =
     (fst p,
      (snd p)\<lparr>Has_Table_booking := imputed_booking draws (merged_filled df sel) ! nat (fst p),
              Has_Online_delivery := imputed_delivery draws (merged_filled df sel) ! nat (fst p)\<rparr>)"

text \<open>The positions of the eligible rows: all three raw service fields absent.\<close>

definition eligible_positions :: "services_frame \<Rightarrow> nat list" where
  "eligible_positions osd =
     filter (\<lambda>i. raw_Has_Table_booking (snd (osd ! i)) = None
                \<and> raw_Has_Online_delivery (snd (osd ! i)) = None
                \<and> raw_Is_delivering_now (snd (osd ! i)) = None) [0..<length osd]"

text \<open>
  Whether the mask marks a label as eligible: the mask row of the label (for a mask that holds
  each label once) has all three raw service fields absent.
\<close>

definition marked :: "services_frame \<Rightarrow> label \<Rightarrow> bool" where
  "marked osd l =
     (case map_of osd l of
        None \<Rightarrow> False
      | Some s \<Rightarrow> raw_Has_Table_booking s = None \<and> raw_Has_Online_delivery s = None
                  \<and> raw_Is_delivering_now s = None)"

subsection \<open>Small frames for concrete runs\<close>

definition service_columns :: "string list" where
  "service_columns = [''City'', ''Has Table booking'', ''Has Online delivery'', ''Is delivering now'']"

definition row :: "string option \<Rightarrow> bool \<Rightarrow> bool \<Rightarrow> bool \<Rightarrow> restaurant" where
  "row c b d n = \<lparr>City = c, Has_Table_booking = b, Has_Online_delivery = d, Is_delivering_now = n\<rparr>"

definition raw :: "string option \<Rightarrow> string option \<Rightarrow> string option \<Rightarrow> original_services" where
  "raw b d n = \<lparr>raw_Has_Table_booking = b, raw_Has_Online_delivery = d, raw_Is_delivering_now = n\<rparr>"

text \<open>
  Two restaurants of city A. Row 0 lists its services (booking and delivery, not delivering
  now); row 1 lists none of the three.
\<close>

definition two_rows :: "unit data_frame" where
  "two_rows = \<lparr>columns = service_columns,
               rows = [(0, row (Some ''A'') True True False),
                       (1, row (Some ''A'') False False False)]\<rparr>"

definition two_rows_services :: services_frame where
  "two_rows_services = [(0, raw (Some ''Yes'') (Some ''Yes'') (Some ''No'')),
                        (1, raw None None None)]"

text \<open>Both rows list a service: no row is eligible.\<close>

definition listed_services :: services_frame where
  "listed_services = [(0, raw (Some ''Yes'') (Some ''Yes'') (Some ''No'')),
                      (1, raw (Some ''No'') None None)]"

text \<open>The same mask with one more row, whose label the table does not have.\<close>

definition longer_services :: services_frame where
  "longer_services = [(0, raw (Some ''Yes'') (Some ''Yes'') (Some ''No'')),
                      (1, raw (Some ''No'') None None),
                      (2, raw None None None)]"

text \<open>A mask that lacks label 1 of the table.\<close>

definition shorter_services :: services_frame where
  "shorter_services = [(0, raw (Some ''Yes'') (Some ''Yes'') (Some ''No''))]"

text \<open>Row 0 has no city and lists no service; row 1 is in city A and offers booking.\<close>

definition no_city_row :: "unit data_frame" where
  "no_city_row = \<lparr>columns = service_columns,
                  rows = [(0, row None False False False),
                          (1, row (Some ''A'') True False False)]\<rparr>"

definition no_city_row_services :: services_frame where
  "no_city_row_services = [(0, raw None None None),
                           (1, raw (Some ''Yes'') (Some ''No'') (Some ''No''))]"

definition empty_table :: "unit data_frame" where
  "empty_table = \<lparr>columns = service_columns, rows = []\<rparr>"

definition without_City :: "unit data_frame" where
  "without_City = \<lparr>columns = [''Has Table booking'', ''Has Online delivery''],
                   rows = [(0, row None True False False)]\<rparr>"

definition high_draws :: "nat \<Rightarrow> rat" where
  "high_draws i = 9 / 10"

definition low_draws :: "nat \<Rightarrow> rat" where
  "low_draws i = 1 / 10"

text \<open>
  Three restaurants: rows 0 and 1 in city A, row 2 in city B. In the first mask row 1 alone
  lists no service. The second mask holds the rows in another order, marks row 2 alone and
  has one row more, whose label the table does not have.
\<close>

definition three_rows :: "unit data_frame" where
  "three_rows = \<lparr>columns = service_columns,
                 rows = [(0, row (Some ''A'') True True False),
                         (1, row (Some ''A'') False False False),
                         (2, row (Some ''B'') False False False)]\<rparr>"

definition three_rows_services :: services_frame where
  "three_rows_services = [(0, raw (Some ''Yes'') (Some ''Yes'') (Some ''No'')),
                          (1, raw None None None),
                          (2, raw (Some ''No'') (Some ''No'') (Some ''No''))]"

definition shuffled_services :: services_frame where
  "shuffled_services = [(2, raw None None None),
                        (0, raw (Some ''Yes'') (Some ''Yes'') (Some ''No'')),
                        (1, raw (Some ''No'') (Some ''No'') (Some ''No'')),
                        (3, raw None None None)]"

text \<open>A mask that holds label 0 twice; only its second row lists no service.\<close>

definition repeated_services :: services_frame where
  "repeated_services = [(0, raw (Some ''Yes'') (Some ''Yes'') (Some ''No'')),
                        (0, raw None None None),
                        (1, raw (Some ''No'') (Some ''No'') (Some ''No''))]"

text \<open>The rows of \<open>two_rows\<close> in the other order.\<close>

definition swapped_rows :: "unit data_frame" where
  "swapped_rows = \<lparr>columns = service_columns,
                   rows = [(1, row (Some ''A'') False False False),
                           (0, row (Some ''A'') True True False)]\<rparr>"

text \<open>An empty table that already has a column named \<open>prob_booking\<close>.\<close>

definition empty_with_prob :: "unit data_frame" where
  "empty_with_prob = \<lparr>columns = service_columns @ [''prob_booking''], rows = []\<rparr>"

definition mid_draws :: "nat \<Rightarrow> rat" where
  "mid_draws i = 2 / 5"


section \<open>Basic facts about the operations\<close>

lemmas model_defs =
  impute_missing_services_def has_columns_def merge_keeps_names_def restaurants_to_impute_def
  check_bool_indexer_def matches_def getitem_bool_array_def nonzero_def
  no_services_mask_def isnull_all_def index_def merged_filled_def merge_left_def merge_row_def
  city_lookup_def city_probabilities_def agg_mean_def fillna_def global_prob_booking_def
  global_prob_delivery_def mean_def range_index_def loc_set_def loc_row_def
  imputed_booking_def imputed_delivery_def rand_def less_prob_def set_booking_def
  set_delivery_def

lemmas example_defs =
  service_columns_def row_def raw_def two_rows_def two_rows_services_def listed_services_def
  longer_services_def shorter_services_def no_city_row_def no_city_row_services_def
  empty_table_def without_City_def high_draws_def low_draws_def three_rows_def
  three_rows_services_def shuffled_services_def repeated_services_def swapped_rows_def
  empty_with_prob_def mid_draws_def

lemma length_rand [simp]: "length (rand draws off n) = n"
  by (simp add: rand_def)

lemma nth_rand [simp]: "j < n \<Longrightarrow> rand draws off n ! j = draws (off + j)"
  by (simp add: rand_def)

lemma length_imputed_booking [simp]: "length (imputed_booking draws ms) = length ms"
  by (simp add: imputed_booking_def)

lemma length_imputed_delivery [simp]: "length (imputed_delivery draws ms) = length ms"
  by (simp add: imputed_delivery_def)

lemma length_merged_filled [simp]: "length (merged_filled df sel) = length sel"
  by (simp add: merged_filled_def merge_left_def)

lemma length_range_index [simp]: "length (range_index k) = k"
  by (simp add: range_index_def)

lemma set_range_index: "l \<in> set (range_index k) \<longleftrightarrow> 0 \<le> l \<and> l < int k"
proof
  assume "l \<in> set (range_index k)"
  then show "0 \<le> l \<and> l < int k" by (auto simp: range_index_def)
next
  assume a: "0 \<le> l \<and> l < int k"
  then have "nat l < k" "int (nat l) = l" by auto
  then have "l \<in> int ` {0..<k}" by (metis atLeastLessThan_iff imageI le0)
  then show "l \<in> set (range_index k)" by (simp add: range_index_def)
qed

lemma loc_set_Inr_iff:
  "loc_set upd labels vals rs = Inr rs' \<longleftrightarrow>
     set labels \<subseteq> fst ` set rs \<and> rs' = map (loc_row upd labels vals) rs"
  by (auto simp: loc_set_def list_ex_iff split: if_splits)

lemma loc_set_Inl: "loc_set upd labels vals rs = Inl e \<Longrightarrow> e = KeyError"
  by (auto simp: loc_set_def split: if_splits)

lemma fst_loc_row [simp]: "fst (loc_row upd labels vals p) = fst p"
  by (cases p) (simp add: loc_row_def split: option.splits)

lemma loc_row_unlisted: "fst p \<notin> set labels \<Longrightarrow> loc_row upd labels vals p = p"
proof -
  assume "fst p \<notin> set labels"
  then have "fst p \<notin> fst ` set (zip labels vals)"
    by (auto dest: set_zip_leftD)
  then have "map_of (zip labels vals) (fst p) = None"
    by (simp add: map_of_eq_None_iff)
  then show ?thesis by (cases p) (simp add: loc_row_def)
qed

text \<open>Selection by a boolean array as long as the frame.\<close>

lemma set_nonzero: "set (nonzero bs) = {p. p < length bs \<and> bs ! p}"
  by (auto simp: nonzero_def)

lemma nonzero_all: "list_all (\<lambda>b. b) bs \<Longrightarrow> nonzero bs = [0..<length bs]"
  by (simp add: nonzero_def list_all_length)

lemma getitem_aligned:
  assumes "length bs = length rs"
  shows "getitem_bool_array rs bs = Inr (map ((!) rs) (nonzero bs))"
proof (cases "list_all (\<lambda>b. b) bs")
  case True
  then show ?thesis
    using assms by (simp add: getitem_bool_array_def nonzero_all map_nth)
next
  case False
  have "\<not> list_ex (\<lambda>p. length rs \<le> p) (nonzero bs)"
    using assms by (auto simp: list_ex_iff set_nonzero)
  with False show ?thesis by (simp add: getitem_bool_array_def)
qed

lemma getitem_empty: "getitem_bool_array [] bs = Inr sel \<Longrightarrow> sel = []"
  by (auto simp: getitem_bool_array_def list_ex_iff split: if_splits)

lemma getitem_Inl: "getitem_bool_array rs bs = Inl e \<Longrightarrow> e = IndexError"
  by (auto simp: getitem_bool_array_def split: if_splits)

lemma getitem_length:
  "length rs = length rs' \<Longrightarrow>
     map_sum id length (getitem_bool_array rs bs) = map_sum id length (getitem_bool_array rs' bs)"
  by (simp add: getitem_bool_array_def)

lemma nth_filter_positions:
  "map ((!) rs) (filter (\<lambda>k. Q (rs ! k)) [0..<length rs]) = filter Q rs"
proof (induction rs)
  case Nil
  then show ?case by simp
next
  case (Cons r rs)
  have upt: "[0..<length (r # rs)] = 0 # map Suc [0..<length rs]"
    by (simp add: upt_conv_Cons map_Suc_upt del: upt_Suc)
  show ?case
    unfolding upt using Cons by (simp add: filter_map o_def)
qed

text \<open>
  A mask that holds label 0 twice and whose index differs from the table's: the array taken
  is longer than the table, and its one True entry selects the row at position 1.
\<close>

lemma repeated_label_selection:
  "check_bool_indexer (index two_rows) (no_services_mask repeated_services) = Inr [False, True, False]
   \<and> restaurants_to_impute two_rows repeated_services = Inr [(1, row (Some ''A'') False False False)]"
  by (simp add: model_defs example_defs)

text \<open>What a run that returns has done: the two writes, row by row.\<close>

lemma impute_Inr:
  assumes "impute_missing_services draws df osd = Inr df'"
  obtains sel where "has_columns df" and "merge_keeps_names df"
    and "restaurants_to_impute df osd = Inr sel"
    and "df' = df\<lparr>rows :=
           map (loc_row set_delivery (range_index (length sel))
                  (imputed_delivery draws (merged_filled df sel)))
             (map (loc_row set_booking (range_index (length sel))
                     (imputed_booking draws (merged_filled df sel))) (rows df))\<rparr>"
  using assms
  by (auto simp: impute_missing_services_def Let_def loc_set_Inr_iff
           split: if_splits sum.splits)

lemma loc_row_booking_frame:
  "City (snd (loc_row set_booking ls vs p)) = City (snd p)
   \<and> Is_delivering_now (snd (loc_row set_booking ls vs p)) = Is_delivering_now (snd p)
   \<and> restaurant.more (snd (loc_row set_booking ls vs p)) = restaurant.more (snd p)
   \<and> Has_Online_delivery (snd (loc_row set_booking ls vs p)) = Has_Online_delivery (snd p)"
  by (cases p) (simp add: loc_row_def set_booking_def split: option.splits)

lemma loc_row_delivery_frame:
  "City (snd (loc_row set_delivery ls vs p)) = City (snd p)
   \<and> Is_delivering_now (snd (loc_row set_delivery ls vs p)) = Is_delivering_now (snd p)
   \<and> restaurant.more (snd (loc_row set_delivery ls vs p)) = restaurant.more (snd p)
   \<and> Has_Table_booking (snd (loc_row set_delivery ls vs p)) = Has_Table_booking (snd p)"
  by (cases p) (simp add: loc_row_def set_delivery_def split: option.splits)

lemma two_rows_run:
  "impute_missing_services high_draws two_rows two_rows_services =
     Inr \<lparr>columns = service_columns,
          rows = [(0, row (Some ''A'') False False False),
                  (1, row (Some ''A'') False False False)]\<rparr>"
  by (simp add: model_defs example_defs)

section \<open>Row and column preservation\<close>

text \<open>
  Claim C2. Whenever \<open>impute_missing_services\<close> returns a table, that table has as many rows
  as the input table, the same columns and the same row labels, and in every row the city,
  \<open>Is delivering now\<close> and every column other than \<open>Has Table booking\<close> and
  \<open>Has Online delivery\<close> hold the value they held in the input.
\<close>

theorem row_column_preservation:
  assumes "impute_missing_services draws df osd = Inr df'"
  shows "length (rows df') = length (rows df) \<and> columns df' = columns df \<and> index df' = index df
         \<and> (\<forall>i < length (rows df).
               City (snd (rows df' ! i)) = City (snd (rows df ! i))
             \<and> Is_delivering_now (snd (rows df' ! i)) = Is_delivering_now (snd (rows df ! i))
             \<and> restaurant.more (snd (rows df' ! i)) = restaurant.more (snd (rows df ! i)))"
proof -
  from assms obtain sel where
    df': "df' = df\<lparr>rows :=
           map (loc_row set_delivery (range_index (length sel))
                  (imputed_delivery draws (merged_filled df sel)))
             (map (loc_row set_booking (range_index (length sel))
                     (imputed_booking draws (merged_filled df sel))) (rows df))\<rparr>"
    by (rule impute_Inr)
  show ?thesis
    unfolding df' by (simp add: index_def o_def loc_row_delivery_frame loc_row_booking_frame)
qed

theorem row_column_preservation_witness:
  "length (rows two_rows) = 2
   \<and> (\<exists>df'. impute_missing_services high_draws two_rows two_rows_services = Inr df'
        \<and> length (rows df') = 2 \<and> columns df' = service_columns \<and> index df' = [0, 1]
        \<and> City (snd (rows df' ! 0)) = Some ''A'' \<and> \<not> Is_delivering_now (snd (rows df' ! 0))
        \<and> City (snd (rows df' ! 1)) = Some ''A'' \<and> \<not> Is_delivering_now (snd (rows df' ! 1)))"
  using row_column_preservation [OF two_rows_run] two_rows_run
  by (simp add: two_rows_def index_def row_def)

section \<open>Selection of the eligible rows\<close>

lemma fst_no_services_mask [simp]: "map fst (no_services_mask osd) = map fst osd"
  by (simp add: no_services_mask_def case_prod_unfold o_def)

lemma snd_no_services_mask:
  "map snd (no_services_mask osd) = map (\<lambda>p. isnull_all (snd p)) osd"
  by (simp add: no_services_mask_def case_prod_unfold o_def)

lemma aligned_selection:
  assumes "map fst osd = index df"
  shows "restaurants_to_impute df osd = Inr (map ((!) (rows df)) (eligible_positions osd))"
proof -
  let ?bs = "map (\<lambda>p. isnull_all (snd p)) osd"
  have len: "length osd = length (rows df)"
    using assms by (metis index_def length_map)
  have chk: "check_bool_indexer (index df) (no_services_mask osd) = Inr ?bs"
    using assms by (simp add: check_bool_indexer_def snd_no_services_mask)
  have "nonzero ?bs = eligible_positions osd"
    unfolding eligible_positions_def nonzero_def
    by (rule filter_cong) (simp_all add: isnull_all_def)
  moreover have "getitem_bool_array (rows df) ?bs = Inr (map ((!) (rows df)) (nonzero ?bs))"
    by (rule getitem_aligned) (simp add: len)
  ultimately show ?thesis
    by (simp add: restaurants_to_impute_def chk)
qed

text \<open>
  Claim C3. When the mask has the row labels of the table, the rows selected for imputation
  are exactly the rows at the eligible positions, in table order; and a position is eligible
  if and only if all three raw service fields of its mask row (table booking, online
  delivery, delivering now) are absent. A row with one value present, such as an explicit
  \<open>No\<close>, is not selected.
\<close>

theorem eligibility_selection:
  assumes "map fst osd = index df"
  shows "restaurants_to_impute df osd = Inr (map ((!) (rows df)) (eligible_positions osd))
         \<and> (\<forall>i < length (rows df).
               i \<in> set (eligible_positions osd) \<longleftrightarrow>
                 raw_Has_Table_booking (snd (osd ! i)) = None
                 \<and> raw_Has_Online_delivery (snd (osd ! i)) = None
                 \<and> raw_Is_delivering_now (snd (osd ! i)) = None)"
proof -
  have len: "length osd = length (rows df)"
    using assms by (metis index_def length_map)
  show ?thesis
    using aligned_selection [OF assms] by (simp add: eligible_positions_def len)
qed

lemma two_rows_aligned: "map fst two_rows_services = index two_rows"
  by (simp add: example_defs index_def)

theorem eligibility_selection_witness:
  "map fst two_rows_services = index two_rows
   \<and> restaurants_to_impute two_rows two_rows_services = Inr [(1, row (Some ''A'') False False False)]
   \<and> 1 \<in> set (eligible_positions two_rows_services)
   \<and> 0 \<notin> set (eligible_positions two_rows_services)
   \<and> raw_Is_delivering_now (snd (two_rows_services ! 0)) = Some ''No''"
  using eligibility_selection [OF two_rows_aligned] two_rows_aligned
  by (simp add: eligible_positions_def two_rows_def two_rows_services_def raw_def)

section \<open>City and global probabilities\<close>

lemma mean_arithmetic: "mean bs = arithmetic_mean bs"
proof -
  have "sum_list (map (\<lambda>b. if b then 1 else 0) bs) = (of_nat (length (filter (\<lambda>b. b) bs)) :: rat)"
    by (induction bs) auto
  then show ?thesis by (simp add: mean_def arithmetic_mean_def)
qed

lemma map_of_group_add:
  "map_of (group_add c b d gs) c' =
     (if c' = c
      then Some (case map_of gs c of
                   None \<Rightarrow> (1, of_bool b, of_bool d)
                 | Some (n, sb, sd) \<Rightarrow> (Suc n, sb + of_bool b, sd + of_bool d))
      else map_of gs c')"
  by (induction c b d gs rule: group_add.induct) auto

text \<open>The accumulator of a city: the size of its group and the number of True values.\<close>

lemma map_of_groupby_City:
  "map_of (groupby_City rs) c =
     (if filter (\<lambda>p. City (snd p) = Some c) rs = [] then None
      else Some (length (filter (\<lambda>p. City (snd p) = Some c) rs),
                 length (filter (\<lambda>p. City (snd p) = Some c \<and> Has_Table_booking (snd p)) rs),
                 length (filter (\<lambda>p. City (snd p) = Some c \<and> Has_Online_delivery (snd p)) rs)))"
proof (induction rs)
  case Nil
  then show ?case by simp
next
  case (Cons p rs)
  obtain l r where p: "p = (l, r)" by (cases p)
  show ?case
  proof (cases "City r")
    case None
    then show ?thesis using Cons by (simp add: p)
  next
    case (Some c0)
    show ?thesis
    proof (cases "c = c0")
      case True
      then show ?thesis using Cons Some
        by (auto simp: p map_of_group_add filter_empty_conv)
    next
      case False
      then show ?thesis using Cons Some by (simp add: p map_of_group_add)
    qed
  qed
qed

lemma length_filter_column:
  "length (filter (\<lambda>b. b) (map (\<lambda>p. attr (snd p)) (filter (\<lambda>p. City (snd p) = Some c) rs))) =
   length (filter (\<lambda>p. City (snd p) = Some c \<and> attr (snd p)) rs)"
  by (induction rs) auto

lemma map_of_agg_mean:
  "map_of (map agg_mean gs) c =
     map_option (\<lambda>(n, sb, sd). (of_nat sb / of_nat n, of_nat sd / of_nat n)) (map_of gs c)"
  by (induction gs) (auto simp: agg_mean_def)

lemma city_probabilities_lookup:
  "map_of (city_probabilities df) c =
     (if city_column Has_Table_booking c df = [] then None
      else Some (the (mean (city_column Has_Table_booking c df)),
                 the (mean (city_column Has_Online_delivery c df))))"
  by (simp add: city_probabilities_def map_of_agg_mean map_of_groupby_City city_column_def
                mean_def case_prod_unfold length_filter_column)

text \<open>
  Claim C4. The probability of a city for either attribute, as the merge looks it up in
  \<open>city_probabilities\<close>, is the arithmetic mean of that attribute's column restricted
  to the rows of the city (and is absent when the city has no row); each global probability is
  the arithmetic mean of the column over the whole table. The columns are the current boolean
  columns of the table.
\<close>

theorem probabilities_are_means:
  "map_option fst (map_of (city_probabilities df) c) =
     arithmetic_mean (city_column Has_Table_booking c df)
   \<and> map_option snd (map_of (city_probabilities df) c) =
     arithmetic_mean (city_column Has_Online_delivery c df)
   \<and> global_prob_booking df = arithmetic_mean (whole_column Has_Table_booking df)
   \<and> global_prob_delivery df = arithmetic_mean (whole_column Has_Online_delivery df)"
proof -
  have b: "map_option fst (map_of (city_probabilities df) c) =
      mean (city_column Has_Table_booking c df)"
    by (simp add: city_probabilities_lookup) (simp add: mean_def)
  have d: "map_option snd (map_of (city_probabilities df) c) =
      mean (city_column Has_Online_delivery c df)"
    by (simp add: city_probabilities_lookup) (simp add: mean_def city_column_def)
  show ?thesis
    using b d
    by (simp add: mean_arithmetic global_prob_booking_def global_prob_delivery_def
                  whole_column_def)
qed

theorem probabilities_are_means_witness:
  "map_of (city_probabilities two_rows) ''A'' = Some (1 / 2, 1 / 2)
   \<and> arithmetic_mean (city_column Has_Table_booking ''A'' two_rows) = Some (1 / 2)
   \<and> arithmetic_mean (city_column Has_Online_delivery ''A'' two_rows) = Some (1 / 2)
   \<and> global_prob_booking two_rows = Some (1 / 2)
   \<and> arithmetic_mean (whole_column Has_Table_booking two_rows) = Some (1 / 2)"
  using probabilities_are_means [of two_rows "''A''"]
  by (simp add: model_defs example_defs arithmetic_mean_def city_column_def whole_column_def)

section \<open>Resolved probabilities and sampling\<close>

lemma selection_nonempty:
  assumes "restaurants_to_impute df osd = Inr sel" and "j < length sel"
  shows "rows df \<noteq> []"
proof
  assume "rows df = []"
  then have "sel = []"
    using assms(1) by (auto simp: restaurants_to_impute_def split: sum.splits dest: getitem_empty)
  then show False using assms(2) by simp
qed

lemma global_defined:
  "rows df \<noteq> [] \<Longrightarrow>
     (\<exists>g. global_prob_booking df = Some g) \<and> (\<exists>g. global_prob_delivery df = Some g)"
  by (simp add: global_prob_booking_def global_prob_delivery_def mean_def)

lemma nth_merged_filled:
  "j < length sel \<Longrightarrow>
     prob_booking (merged_filled df sel ! j) =
       fillna (global_prob_booking df) (map_option fst (city_lookup (city_probabilities df) (snd (sel ! j))))
   \<and> prob_delivery (merged_filled df sel ! j) =
       fillna (global_prob_delivery df) (map_option snd (city_lookup (city_probabilities df) (snd (sel ! j))))"
  by (simp add: merged_filled_def merge_left_def merge_row_def case_prod_unfold
           split: option.splits)




text \<open>
  The two imputed Series. For the j-th selected row the resolved probability of each attribute
  (the probability of its city, or the global mean where the city has none) is defined, the
  imputed table booking is \<open>draw j < probability\<close> and the imputed online delivery is
  \<open>draw (k + j) < probability\<close>, where k is the number of selected rows. Two runs on the
  same input whose draw sequences agree on the first 2k draws give the same result.
\<close>

lemma imputed_series:
  assumes "restaurants_to_impute df osd = Inr sel"
  shows "(\<forall>j < length sel. \<exists>pb pd.
            fillna (global_prob_booking df)
              (map_option fst (city_lookup (city_probabilities df) (snd (sel ! j)))) = Some pb
          \<and> fillna (global_prob_delivery df)
              (map_option snd (city_lookup (city_probabilities df) (snd (sel ! j)))) = Some pd
          \<and> imputed_booking draws (merged_filled df sel) ! j = (draws j < pb)
          \<and> imputed_delivery draws (merged_filled df sel) ! j = (draws (length sel + j) < pd))
       \<and> ((\<forall>i < 2 * length sel. draws' i = draws i) \<longrightarrow>
            impute_missing_services draws' df osd = impute_missing_services draws df osd)"
proof (intro conjI allI impI)
  fix j assume j: "j < length sel"
  let ?ms = "merged_filled df sel"
  from global_defined [OF selection_nonempty [OF assms j]]
  obtain gb gd where g: "global_prob_booking df = Some gb" "global_prob_delivery df = Some gd"
    by auto
  from nth_merged_filled [OF j, of df]
  have pb: "prob_booking (?ms ! j) = fillna (global_prob_booking df)
              (map_option fst (city_lookup (city_probabilities df) (snd (sel ! j))))"
    and pd: "prob_delivery (?ms ! j) = fillna (global_prob_delivery df)
              (map_option snd (city_lookup (city_probabilities df) (snd (sel ! j))))"
    by simp_all
  obtain b where b: "prob_booking (?ms ! j) = Some b"
    unfolding pb by (cases "city_lookup (city_probabilities df) (snd (sel ! j))") (auto simp: fillna_def g)
  obtain d where d: "prob_delivery (?ms ! j) = Some d"
    unfolding pd by (cases "city_lookup (city_probabilities df) (snd (sel ! j))") (auto simp: fillna_def g)
  have "imputed_booking draws ?ms ! j = (draws j < b)"
    using j b by (simp add: imputed_booking_def less_prob_def)
  moreover have "imputed_delivery draws ?ms ! j = (draws (length sel + j) < d)"
    using j d by (simp add: imputed_delivery_def less_prob_def)
  ultimately show "\<exists>pb pd.
            fillna (global_prob_booking df)
              (map_option fst (city_lookup (city_probabilities df) (snd (sel ! j)))) = Some pb
          \<and> fillna (global_prob_delivery df)
              (map_option snd (city_lookup (city_probabilities df) (snd (sel ! j)))) = Some pd
          \<and> imputed_booking draws (merged_filled df sel) ! j = (draws j < pb)
          \<and> imputed_delivery draws (merged_filled df sel) ! j = (draws (length sel + j) < pd)"
    using b d pb pd by auto
next
  assume eq: "\<forall>i < 2 * length sel. draws' i = draws i"
  have "rand draws' 0 (length sel) = rand draws 0 (length sel)"
    unfolding rand_def using eq by (intro map_cong) auto
  moreover have "rand draws' (length sel) (length sel) = rand draws (length sel) (length sel)"
    unfolding rand_def using eq by (intro map_cong) auto
  ultimately have "imputed_booking draws' (merged_filled df sel) = imputed_booking draws (merged_filled df sel)"
    and "imputed_delivery draws' (merged_filled df sel) = imputed_delivery draws (merged_filled df sel)"
    by (simp_all add: imputed_booking_def imputed_delivery_def)
  then show "impute_missing_services draws' df osd = impute_missing_services draws df osd"
    using assms by (simp add: impute_missing_services_def Let_def cong: sum.case_cong)
qed

lemma three_rows_probabilities:
  "map_of (city_probabilities three_rows) ''A'' = Some (1 / 2, 1 / 2)
   \<and> global_prob_booking three_rows = Some (1 / 3)
   \<and> global_prob_delivery three_rows = Some (1 / 3)"
  by (simp add: model_defs example_defs)

text \<open>
  Claim C6 at a concrete table. Row 1 of city A is the one eligible row; the probability of
  city A is 0.5 for both attributes and every draw is 0.4, so both imputed values are True. The
  returned table is the input table: the imputed values were written at label 0, which already
  held True and True, and the eligible row 1 still holds False and False where the claim gives
  it \<open>draw < probability\<close>, that is True and True.
\<close>

theorem eligible_row_not_imputed:
  "eligible_positions three_rows_services = [1]
   \<and> restaurants_to_impute three_rows three_rows_services =
       Inr [(1, row (Some ''A'') False False False)]
   \<and> prob_booking (merged_filled three_rows [(1, row (Some ''A'') False False False)] ! 0)
       = Some (1 / 2)
   \<and> prob_delivery (merged_filled three_rows [(1, row (Some ''A'') False False False)] ! 0)
       = Some (1 / 2)
   \<and> mid_draws 0 = 2 / 5 \<and> mid_draws 1 = 2 / 5
   \<and> imputed_booking mid_draws (merged_filled three_rows [(1, row (Some ''A'') False False False)])
       = [True]
   \<and> imputed_delivery mid_draws (merged_filled three_rows [(1, row (Some ''A'') False False False)])
       = [True]
   \<and> written_positions three_rows three_rows_services = [0]
   \<and> impute_missing_services mid_draws three_rows three_rows_services = Inr three_rows
   \<and> rows three_rows ! 1 = (1, row (Some ''A'') False False False)"
  by (simp add: model_defs example_defs eligible_positions_def written_positions_def
        write_labels_def)

section \<open>Bounds of the probabilities\<close>

lemma mean_bounds: "mean bs = Some p \<Longrightarrow> 0 \<le> p \<and> p \<le> 1"
proof -
  assume m: "mean bs = Some p"
  then have ne: "bs \<noteq> []" and p: "p = of_nat (length (filter (\<lambda>b. b) bs)) / of_nat (length bs)"
    by (auto simp: mean_def split: if_splits)
  have "length (filter (\<lambda>b. b) bs) \<le> length bs" by simp
  then have "(of_nat (length (filter (\<lambda>b. b) bs)) :: rat) \<le> of_nat (length bs)"
    by (simp only: of_nat_le_iff)
  moreover have "(0::rat) < of_nat (length bs)" using ne by simp
  ultimately show ?thesis unfolding p by (simp add: divide_le_eq_1)
qed

lemma mean_defined: "bs \<noteq> [] \<Longrightarrow> \<exists>p. mean bs = Some p"
  by (simp add: mean_def)

lemma city_probabilities_bounds:
  assumes "map_of (city_probabilities df) c = Some (pb, pd)"
  shows "0 \<le> pb \<and> pb \<le> 1 \<and> 0 \<le> pd \<and> pd \<le> 1"
proof -
  from assms have ne: "city_column Has_Table_booking c df \<noteq> []"
    and pb: "pb = the (mean (city_column Has_Table_booking c df))"
    and pd: "pd = the (mean (city_column Has_Online_delivery c df))"
    by (auto simp: city_probabilities_lookup split: if_splits)
  from ne have ne': "city_column Has_Online_delivery c df \<noteq> []"
    by (simp add: city_column_def)
  from mean_defined [OF ne] mean_defined [OF ne'] show ?thesis
    unfolding pb pd by (auto dest: mean_bounds)
qed

text \<open>
  Claim C7, as amended. Every per-city probability lies in the closed interval from 0 to 1,
  and every city of a row of the table has one. For a table with at least one row both global
  probabilities are defined and lie in that interval. For the empty table both global
  probabilities are undefined (NaN).
\<close>

theorem probability_bounds:
  "(\<forall>c pb pd. map_of (city_probabilities df) c = Some (pb, pd) \<longrightarrow>
       0 \<le> pb \<and> pb \<le> 1 \<and> 0 \<le> pd \<and> pd \<le> 1)
   \<and> (\<forall>l r c. (l, r) \<in> set (rows df) \<and> City r = Some c \<longrightarrow>
         (\<exists>pb pd. map_of (city_probabilities df) c = Some (pb, pd)))
   \<and> (rows df \<noteq> [] \<longrightarrow>
         (\<exists>gb gd. global_prob_booking df = Some gb \<and> global_prob_delivery df = Some gd
                  \<and> 0 \<le> gb \<and> gb \<le> 1 \<and> 0 \<le> gd \<and> gd \<le> 1))
   \<and> (rows df = [] \<longrightarrow>
         global_prob_booking df = None \<and> global_prob_delivery df = None)"
proof (intro conjI allI impI)
  fix c pb pd assume "map_of (city_probabilities df) c = Some (pb, pd)"
  from city_probabilities_bounds [OF this]
  show "0 \<le> pb" "pb \<le> 1" "0 \<le> pd" "pd \<le> 1" by simp_all
next
  fix l r c assume "(l, r) \<in> set (rows df) \<and> City r = Some c"
  then have "city_column Has_Table_booking c df \<noteq> []"
    by (auto simp: city_column_def filter_empty_conv)
  then show "\<exists>pb pd. map_of (city_probabilities df) c = Some (pb, pd)"
    by (simp add: city_probabilities_lookup)
next
  assume ne: "rows df \<noteq> []"
  from global_defined [OF ne] obtain gb gd
    where g: "global_prob_booking df = Some gb" "global_prob_delivery df = Some gd" by auto
  then have "0 \<le> gb \<and> gb \<le> 1" "0 \<le> gd \<and> gd \<le> 1"
    by (auto simp: global_prob_booking_def global_prob_delivery_def dest: mean_bounds)
  with g show "\<exists>gb gd. global_prob_booking df = Some gb \<and> global_prob_delivery df = Some gd
                  \<and> 0 \<le> gb \<and> gb \<le> 1 \<and> 0 \<le> gd \<and> gd \<le> 1" by simp
next
  assume "rows df = []"
  then show "global_prob_booking df = None" "global_prob_delivery df = None"
    by (simp_all add: global_prob_booking_def global_prob_delivery_def mean_def)
qed

theorem probability_bounds_witness:
  "map_of (city_probabilities two_rows) ''A'' = Some (1 / 2, 1 / 2)
   \<and> rows two_rows \<noteq> []
   \<and> global_prob_booking two_rows = Some (1 / 2) \<and> global_prob_delivery two_rows = Some (1 / 2)
   \<and> rows empty_table = [] \<and> global_prob_booking empty_table = None"
  using probability_bounds [of two_rows] probability_bounds [of empty_table]
  by (simp add: model_defs example_defs)

text \<open>
  Claim C7 as stated fails on the empty table: the function accepts it, and the global mean of
  an empty column is NaN, which is not a value between 0 and 1.
\<close>

theorem empty_table_global_undefined:
  "impute_missing_services high_draws empty_table [] = Inr empty_table
   \<and> global_prob_booking empty_table = None
   \<and> global_prob_delivery empty_table = None"
  by (simp add: model_defs example_defs)

section \<open>No eligible row\<close>

lemma loc_row_no_labels [simp]: "loc_row upd [] vals p = p"
  by (cases p) (simp add: loc_row_def)

lemma impute_no_selection:
  assumes "has_columns df" and "merge_keeps_names df" and "restaurants_to_impute df osd = Inr []"
  shows "impute_missing_services draws df osd = Inr df"
  using assms
  by (simp add: impute_missing_services_def merged_filled_def merge_left_def range_index_def
                loc_set_def imputed_booking_def imputed_delivery_def o_def)

lemma check_bool_indexer_empty: "check_bool_indexer [] key = Inr []"
  by (simp add: check_bool_indexer_def)

lemma empty_table_selection:
  assumes "rows df = []"
  shows "restaurants_to_impute df osd = Inr []"
  using assms
  by (simp add: restaurants_to_impute_def check_bool_indexer_empty index_def
                getitem_bool_array_def)

text \<open>
  Claim C8, as amended. For a table that has the columns City, Has Table booking and
  Has Online delivery and no column named \<open>prob_booking\<close> or \<open>prob_delivery\<close>: when the
  mask has the row labels of the table and every mask row has at least one of its three raw
  service fields present, the function returns the input table itself; and a table without
  rows is returned unchanged, whatever the mask.
\<close>

theorem no_eligible_rows_identity:
  "(has_columns df \<and> merge_keeps_names df \<and> map fst osd = index df
      \<and> (\<forall>p \<in> set osd. raw_Has_Table_booking (snd p) \<noteq> None
                        \<or> raw_Has_Online_delivery (snd p) \<noteq> None
                        \<or> raw_Is_delivering_now (snd p) \<noteq> None)
      \<longrightarrow> impute_missing_services draws df osd = Inr df)
   \<and> (has_columns df \<and> merge_keeps_names df \<and> rows df = []
      \<longrightarrow> impute_missing_services draws df osd = Inr df)"
proof (intro conjI impI)
  assume a: "has_columns df \<and> merge_keeps_names df \<and> map fst osd = index df
      \<and> (\<forall>p \<in> set osd. raw_Has_Table_booking (snd p) \<noteq> None
                        \<or> raw_Has_Online_delivery (snd p) \<noteq> None
                        \<or> raw_Is_delivering_now (snd p) \<noteq> None)"
  then have "eligible_positions osd = []"
    by (auto simp: eligible_positions_def filter_empty_conv)
  with a have "restaurants_to_impute df osd = Inr []"
    by (simp add: aligned_selection)
  with a show "impute_missing_services draws df osd = Inr df"
    by (simp add: impute_no_selection)
next
  assume "has_columns df \<and> merge_keeps_names df \<and> rows df = []"
  then show "impute_missing_services draws df osd = Inr df"
    by (simp add: impute_no_selection empty_table_selection)
qed

theorem no_eligible_rows_identity_witness:
  "has_columns two_rows \<and> merge_keeps_names two_rows \<and> map fst listed_services = index two_rows
   \<and> raw_Has_Table_booking (snd (listed_services ! 0)) = Some ''Yes''
   \<and> raw_Has_Table_booking (snd (listed_services ! 1)) = Some ''No''
   \<and> impute_missing_services low_draws two_rows listed_services = Inr two_rows
   \<and> has_columns empty_table \<and> merge_keeps_names empty_table \<and> rows empty_table = []
   \<and> impute_missing_services low_draws empty_table [] = Inr empty_table"
  using no_eligible_rows_identity [of two_rows listed_services low_draws]
    no_eligible_rows_identity [of empty_table "[]" low_draws]
  by (simp add: has_columns_def merge_keeps_names_def index_def example_defs)

text \<open>
  Claim C8 as stated fails on an empty table that has a column named \<open>prob_booking\<close>: no
  row is eligible, and the function raises KeyError where the claim has it return the table.
\<close>

theorem empty_table_with_prob_column_fails:
  "has_columns empty_with_prob \<and> rows empty_with_prob = []
   \<and> impute_missing_services low_draws empty_with_prob [] = Inl KeyError"
  by (simp add: model_defs example_defs)

section \<open>Errors on malformed input\<close>

lemma those_None_iff: "those xs = None \<longleftrightarrow> None \<in> set xs"
  by (induction xs) (auto split: option.splits)

lemma matches_None_iff: "matches key l = None \<longleftrightarrow> l \<notin> fst ` set key"
proof -
  have "filter (\<lambda>p. fst p = l) key = [] \<longleftrightarrow> l \<notin> fst ` set key"
    by (auto simp: filter_empty_conv)
  then show ?thesis
    by (auto simp: matches_def split: list.splits)
qed

lemma check_bool_indexer_Inl:
  "check_bool_indexer ix key = Inl e \<longleftrightarrow> e = IndexingError \<and> \<not> set ix \<subseteq> fst ` set key"
proof (cases "map fst key = ix")
  case True
  then have "set ix = fst ` set key" by (metis set_map)
  with True show ?thesis by (simp add: check_bool_indexer_def)
next
  case False
  have "None \<in> set (map (matches key) ix) \<longleftrightarrow> (\<exists>l \<in> set ix. matches key l = None)"
    by force
  then have "those (map (matches key) ix) = None \<longleftrightarrow> \<not> set ix \<subseteq> fst ` set key"
    unfolding those_None_iff by (auto simp: matches_None_iff)
  with False show ?thesis
    by (auto simp: check_bool_indexer_def split: option.splits)
qed

lemma restaurants_to_impute_IndexingError:
  "restaurants_to_impute df osd = Inl IndexingError \<longleftrightarrow> \<not> set (index df) \<subseteq> fst ` set osd"
proof -
  have img: "fst ` set (no_services_mask osd) = fst ` set osd"
    by (metis fst_no_services_mask set_map)
  show ?thesis
  proof (cases "check_bool_indexer (index df) (no_services_mask osd)")
    case (Inl e)
    then show ?thesis
      using check_bool_indexer_Inl [of "index df" "no_services_mask osd" e]
      by (simp add: restaurants_to_impute_def img)
  next
    case (Inr bs)
    then have "set (index df) \<subseteq> fst ` set osd"
      using check_bool_indexer_Inl [of "index df" "no_services_mask osd" IndexingError]
      by (simp add: img)
    then show ?thesis
      using Inr by (auto simp: restaurants_to_impute_def dest: getitem_Inl)
  qed
qed

lemma impute_IndexingError:
  assumes "has_columns df"
  shows "impute_missing_services draws df osd = Inl IndexingError \<longleftrightarrow>
           \<not> set (index df) \<subseteq> fst ` set osd"
proof (cases "restaurants_to_impute df osd")
  case (Inl e)
  then show ?thesis
    using assms restaurants_to_impute_IndexingError [of df osd]
    by (simp add: impute_missing_services_def)
next
  case (Inr sel)
  then have "set (index df) \<subseteq> fst ` set osd"
    using restaurants_to_impute_IndexingError [of df osd] by simp
  then show ?thesis
    using assms Inr
    by (auto simp: impute_missing_services_def Let_def split: sum.splits dest: loc_set_Inl)
qed

text \<open>A mask that holds each label once: every label has one match, its mask value.\<close>

lemma matches_distinct:
  "distinct (map fst key) \<Longrightarrow> matches key l = map_option (\<lambda>b. [b]) (map_of key l)"
proof (induction key)
  case Nil
  then show ?case by (simp add: matches_def)
next
  case (Cons p key)
  obtain l' b where p: "p = (l', b)" by (cases p)
  from Cons have IH: "matches key l = map_option (\<lambda>b. [b]) (map_of key l)"
    and new: "l' \<notin> fst ` set key" by (simp_all add: p)
  show ?case
  proof (cases "l = l'")
    case True
    with new have "filter (\<lambda>q. fst q = l) key = []"
      by (auto simp: filter_empty_conv)
    with True show ?thesis by (simp add: matches_def p)
  next
    case False
    then show ?thesis using IH by (simp add: matches_def p)
  qed
qed

lemma those_singletons:
  "\<forall>l \<in> set ix. m l \<noteq> None \<Longrightarrow>
     those (map (\<lambda>l. map_option (\<lambda>b. [b]) (m l)) ix)
       = Some (map (\<lambda>l. [case m l of None \<Rightarrow> False | Some b \<Rightarrow> b]) ix)"
  by (induction ix) auto

lemma map_of_no_services_mask:
  "map_of (no_services_mask osd) l = map_option isnull_all (map_of osd l)"
  by (induction osd) (auto simp: no_services_mask_def)

lemma mask_value_marked:
  "(case map_of (no_services_mask osd) l of None \<Rightarrow> False | Some b \<Rightarrow> b) = marked osd l"
  by (simp add: map_of_no_services_mask marked_def isnull_all_def split: option.splits)

lemma check_bool_indexer_distinct:
  assumes "distinct (map fst key)" and "set ix \<subseteq> fst ` set key"
  shows "check_bool_indexer ix key =
           Inr (map (\<lambda>l. case map_of key l of None \<Rightarrow> False | Some b \<Rightarrow> b) ix)"
proof (cases "map fst key = ix")
  case True
  have eq: "map_of key (fst p) = Some (snd p)" if "p \<in> set key" for p
    using that assms(1) by (metis map_of_is_SomeI prod.collapse)
  have "map snd key = map (\<lambda>l. case map_of key l of None \<Rightarrow> False | Some b \<Rightarrow> b) (map fst key)"
    by (simp add: eq)
  with True show ?thesis by (simp add: check_bool_indexer_def)
next
  case False
  have found: "\<forall>l \<in> set ix. map_of key l \<noteq> None"
    using assms(2) by (auto simp: map_of_eq_None_iff)
  have "matches key = (\<lambda>l. map_option (\<lambda>b. [b]) (map_of key l))"
    using assms(1) by (auto simp: matches_distinct)
  then have "those (map (matches key) ix) =
      Some (map (\<lambda>l. [case map_of key l of None \<Rightarrow> False | Some b \<Rightarrow> b]) ix)"
    using those_singletons [OF found] by simp
  moreover have "concat (map (\<lambda>l. [case map_of key l of None \<Rightarrow> False | Some b \<Rightarrow> b]) ix) =
      map (\<lambda>l. case map_of key l of None \<Rightarrow> False | Some b \<Rightarrow> b) ix"
    by (induction ix) simp_all
  ultimately show ?thesis
    using False by (simp add: check_bool_indexer_def)
qed

lemma label_aligned_selection:
  assumes "distinct (map fst osd)" and "set (index df) \<subseteq> fst ` set osd"
  shows "restaurants_to_impute df osd = Inr (filter (\<lambda>p. marked osd (fst p)) (rows df))"
proof -
  let ?bs = "map (marked osd) (index df)"
  have "fst ` set (no_services_mask osd) = fst ` set osd"
    by (metis fst_no_services_mask set_map)
  with assms have chk: "check_bool_indexer (index df) (no_services_mask osd) = Inr ?bs"
    by (simp add: check_bool_indexer_distinct mask_value_marked)
  have "getitem_bool_array (rows df) ?bs = Inr (map ((!) (rows df)) (nonzero ?bs))"
    by (rule getitem_aligned) (simp add: index_def)
  moreover have "nonzero ?bs = filter (\<lambda>i. marked osd (fst (rows df ! i))) [0..<length (rows df)]"
    unfolding nonzero_def by (rule filter_cong) (simp_all add: index_def)
  ultimately show ?thesis
    using nth_filter_positions [of "rows df" "\<lambda>p. marked osd (fst p)"]
    by (simp add: restaurants_to_impute_def chk)
qed

text \<open>
  Claim C9, as amended. A table without a City column raises KeyError. For a table that has
  the columns City, Has Table booking and Has Online delivery, the function raises
  IndexingError if and only if some row label of the table is absent from the index of the
  mask. A mask that holds each label once and holds every row label of the table is aligned to
  the table by label, also when its index differs from the table's (further rows, another
  order): the rows selected are the rows of the table whose own label the mask marks.
\<close>

theorem malformed_input_errors:
  "(''City'' \<notin> set (columns df) \<longrightarrow> impute_missing_services draws df osd = Inl KeyError)
   \<and> (has_columns df \<longrightarrow>
         (impute_missing_services draws df osd = Inl IndexingError
            \<longleftrightarrow> \<not> set (index df) \<subseteq> fst ` set osd))
   \<and> (distinct (map fst osd) \<and> set (index df) \<subseteq> fst ` set osd \<longrightarrow>
         restaurants_to_impute df osd = Inr (filter (\<lambda>p. marked osd (fst p)) (rows df)))"
proof (intro conjI impI)
  assume "''City'' \<notin> set (columns df)"
  then show "impute_missing_services draws df osd = Inl KeyError"
    by (simp add: impute_missing_services_def has_columns_def)
next
  assume "has_columns df"
  then show "impute_missing_services draws df osd = Inl IndexingError
            \<longleftrightarrow> \<not> set (index df) \<subseteq> fst ` set osd"
    by (rule impute_IndexingError)
next
  assume "distinct (map fst osd) \<and> set (index df) \<subseteq> fst ` set osd"
  then show "restaurants_to_impute df osd = Inr (filter (\<lambda>p. marked osd (fst p)) (rows df))"
    by (simp add: label_aligned_selection)
qed

theorem malformed_input_errors_witness:
  "''City'' \<notin> set (columns without_City)
   \<and> impute_missing_services low_draws without_City [(0, raw None None None)] = Inl KeyError
   \<and> has_columns two_rows \<and> 1 \<in> set (index two_rows) \<and> 1 \<notin> fst ` set shorter_services
   \<and> impute_missing_services low_draws two_rows shorter_services = Inl IndexingError
   \<and> distinct (map fst shuffled_services)
   \<and> set (index three_rows) \<subseteq> fst ` set shuffled_services
   \<and> marked shuffled_services 2 \<and> \<not> marked shuffled_services 0 \<and> \<not> marked shuffled_services 1
   \<and> restaurants_to_impute three_rows shuffled_services
       = Inr [(2, row (Some ''B'') False False False)]"
  using malformed_input_errors [of without_City low_draws "[(0, raw None None None)]"]
    malformed_input_errors [of two_rows low_draws shorter_services]
    malformed_input_errors [of three_rows low_draws shuffled_services]
  by (simp add: has_columns_def index_def marked_def example_defs)

text \<open>
  Claim C9 as stated fails for a mask in another order and with a row more than the table: the
  indexes differ, no error is raised, the row of label 2 is selected (the mask marks label 2,
  in its first row), and a table is returned.
\<close>

theorem shuffled_mask_accepted:
  "map fst shuffled_services = [2, 0, 1, 3] \<and> index three_rows = [0, 1, 2]
   \<and> restaurants_to_impute three_rows shuffled_services
       = Inr [(2, row (Some ''B'') False False False)]
   \<and> impute_missing_services mid_draws three_rows shuffled_services =
       Inr \<lparr>columns = service_columns,
            rows = [(0, row (Some ''A'') False False False),
                    (1, row (Some ''A'') False False False),
                    (2, row (Some ''B'') False False False)]\<rparr>"
  by (simp add: model_defs example_defs)

section \<open>The positions written\<close>

text \<open>The labels written depend on the table through its index alone.\<close>

lemma selection_length_index:
  assumes "index df1 = index df2"
  shows "map_sum id length (restaurants_to_impute df1 osd)
       = map_sum id length (restaurants_to_impute df2 osd)"
proof -
  have len: "length (rows df1) = length (rows df2)"
    using assms by (metis index_def length_map)
  show ?thesis
    using getitem_length [OF len]
    by (simp add: restaurants_to_impute_def assms split: sum.splits)
qed

lemma write_labels_length:
  "write_labels df osd =
     (case map_sum id length (restaurants_to_impute df osd) of
        Inl e \<Rightarrow> []
      | Inr k \<Rightarrow> range_index k)"
  by (simp add: write_labels_def split: sum.splits)

lemma write_labels_selection:
  "restaurants_to_impute df osd = Inr sel \<Longrightarrow> write_labels df osd = range_index (length sel)"
  by (simp add: write_labels_def)

lemma map_of_range_index:
  assumes "length vals = k" and "0 \<le> l" and "l < int k"
  shows "map_of (zip (range_index k) vals) l = Some (vals ! nat l)"
proof -
  have d: "distinct (range_index k)"
    by (simp add: range_index_def distinct_map)
  have n: "nat l < k" using assms by auto
  have "range_index k ! nat l = l"
    using n assms(2) by (simp add: range_index_def)
  with map_of_zip_nth [of "range_index k" vals "nat l"] d n assms(1)
  show ?thesis by simp
qed

text \<open>
  The rows of a returned table: a row at a written position holds the two imputed values found
  at its label, every other row is the row of the input.
\<close>

lemma impute_writes:
  assumes "impute_missing_services draws df osd = Inr df'" and "i < length (rows df)"
    and "restaurants_to_impute df osd = Inr sel"
  shows "rows df' ! i =
     (if i \<in> set (written_positions df osd) then written_row draws df sel (rows df ! i)
      else rows df ! i)"
proof -
  obtain l r where lr: "rows df ! i = (l, r)" by (cases "rows df ! i")
  from assms(1) obtain sel' where "restaurants_to_impute df osd = Inr sel'"
    and "df' = df\<lparr>rows :=
           map (loc_row set_delivery (range_index (length sel'))
                  (imputed_delivery draws (merged_filled df sel')))
             (map (loc_row set_booking (range_index (length sel'))
                     (imputed_booking draws (merged_filled df sel'))) (rows df))\<rparr>"
    by (rule impute_Inr)
  with assms(3) have df': "df' = df\<lparr>rows :=
           map (loc_row set_delivery (range_index (length sel))
                  (imputed_delivery draws (merged_filled df sel)))
             (map (loc_row set_booking (range_index (length sel))
                     (imputed_booking draws (merged_filled df sel))) (rows df))\<rparr>"
    by simp
  have row: "rows df' ! i =
      loc_row set_delivery (range_index (length sel)) (imputed_delivery draws (merged_filled df sel))
        (loc_row set_booking (range_index (length sel)) (imputed_booking draws (merged_filled df sel))
           (l, r))"
    unfolding df' using assms(2) lr by simp
  have pos: "i \<in> set (written_positions df osd) \<longleftrightarrow> l \<in> set (range_index (length sel))"
    using assms(2) lr
    by (simp add: written_positions_def write_labels_selection [OF assms(3)] index_def)
  show ?thesis
  proof (cases "l \<in> set (range_index (length sel))")
    case True
    then have l: "0 \<le> l" "l < int (length sel)" by (simp_all add: set_range_index)
    show ?thesis
      unfolding row using True pos lr l
      by (simp add: loc_row_def map_of_range_index set_booking_def set_delivery_def
            written_row_def)
  next
    case False
    then show ?thesis
      unfolding row using pos lr by (simp add: loc_row_unlisted)
  qed
qed

text \<open>
  Claim C10, as amended. Two tables with the same row index, that is the same labels in the
  same order, run with the same mask, have the same written positions, whatever their column
  values and whatever the draws of either run. In each run that returns, the rows at the
  written positions hold the imputed values and every other row is the row of the input.
\<close>

theorem written_positions_from_mask:
  assumes "index df1 = index df2"
  shows "written_positions df1 osd = written_positions df2 osd
     \<and> (\<forall>df1' sel1 i. impute_missing_services draws1 df1 osd = Inr df1'
            \<and> restaurants_to_impute df1 osd = Inr sel1 \<and> i < length (rows df1) \<longrightarrow>
          rows df1' ! i =
            (if i \<in> set (written_positions df1 osd) then written_row draws1 df1 sel1 (rows df1 ! i)
             else rows df1 ! i))
     \<and> (\<forall>df2' sel2 i. impute_missing_services draws2 df2 osd = Inr df2'
            \<and> restaurants_to_impute df2 osd = Inr sel2 \<and> i < length (rows df2) \<longrightarrow>
          rows df2' ! i =
            (if i \<in> set (written_positions df2 osd) then written_row draws2 df2 sel2 (rows df2 ! i)
             else rows df2 ! i))"
proof (intro conjI allI impI)
  have len: "length (rows df1) = length (rows df2)"
    using assms by (metis index_def length_map)
  have "write_labels df1 osd = write_labels df2 osd"
    by (simp only: write_labels_length selection_length_index [OF assms])
  then show "written_positions df1 osd = written_positions df2 osd"
    by (simp add: written_positions_def assms len)
next
  fix df1' sel1 i
  assume "impute_missing_services draws1 df1 osd = Inr df1'
            \<and> restaurants_to_impute df1 osd = Inr sel1 \<and> i < length (rows df1)"
  then show "rows df1' ! i =
            (if i \<in> set (written_positions df1 osd) then written_row draws1 df1 sel1 (rows df1 ! i)
             else rows df1 ! i)"
    using impute_writes [of draws1 df1 osd df1' i sel1] by simp
next
  fix df2' sel2 i
  assume "impute_missing_services draws2 df2 osd = Inr df2'
            \<and> restaurants_to_impute df2 osd = Inr sel2 \<and> i < length (rows df2)"
  then show "rows df2' ! i =
            (if i \<in> set (written_positions df2 osd) then written_row draws2 df2 sel2 (rows df2 ! i)
             else rows df2 ! i)"
    using impute_writes [of draws2 df2 osd df2' i sel2] by simp
qed

lemma same_index: "index two_rows = index no_city_row"
  by (simp add: index_def example_defs)

lemma no_city_row_run:
  "impute_missing_services low_draws no_city_row two_rows_services =
     Inr \<lparr>columns = service_columns,
          rows = [(0, row None True False False),
                  (1, row (Some ''A'') True False False)]\<rparr>"
  by (simp add: model_defs example_defs)

lemma two_rows_written: "written_positions two_rows two_rows_services = [0]"
  by (simp add: model_defs example_defs written_positions_def write_labels_def)

lemma no_city_row_written: "written_positions no_city_row two_rows_services = [0]"
  by (simp add: model_defs example_defs written_positions_def write_labels_def)

lemma two_rows_written_row:
  "written_row high_draws two_rows [(1, row (Some ''A'') False False False)] (rows two_rows ! 0)
     = (0, row (Some ''A'') False False False)"
  by (simp add: model_defs example_defs written_row_def)

lemma no_city_row_written_row:
  "written_row low_draws no_city_row [(1, row (Some ''A'') True False False)] (rows no_city_row ! 0)
     = (0, row None True False False)"
  by (simp add: model_defs example_defs written_row_def)

theorem written_positions_from_mask_witness:
  "index two_rows = index no_city_row
   \<and> written_positions two_rows two_rows_services = [0]
   \<and> written_positions no_city_row two_rows_services = [0]
   \<and> impute_missing_services high_draws two_rows two_rows_services =
       Inr \<lparr>columns = service_columns,
            rows = [(0, row (Some ''A'') False False False),
                    (1, row (Some ''A'') False False False)]\<rparr>
   \<and> written_row high_draws two_rows [(1, row (Some ''A'') False False False)] (rows two_rows ! 0)
       = (0, row (Some ''A'') False False False)
   \<and> impute_missing_services low_draws no_city_row two_rows_services =
       Inr \<lparr>columns = service_columns,
            rows = [(0, row None True False False),
                    (1, row (Some ''A'') True False False)]\<rparr>
   \<and> written_row low_draws no_city_row [(1, row (Some ''A'') True False False)] (rows no_city_row ! 0)
       = (0, row None True False False)"
  using written_positions_from_mask [OF same_index, of two_rows_services high_draws low_draws]
    same_index two_rows_run no_city_row_run two_rows_written no_city_row_written
    two_rows_written_row no_city_row_written_row
  by simp

text \<open>
  Claim C10 as stated fails for two tables with the same set of row labels in another order:
  with the same mask, the first run writes position 0 and the second position 1.
\<close>

theorem swapped_rows_written_elsewhere:
  "set (index two_rows) = set (index swapped_rows)
   \<and> written_positions two_rows two_rows_services = [0]
   \<and> written_positions swapped_rows two_rows_services = [1]
   \<and> impute_missing_services high_draws two_rows two_rows_services =
       Inr \<lparr>columns = service_columns,
            rows = [(0, row (Some ''A'') False False False),
                    (1, row (Some ''A'') False False False)]\<rparr>
   \<and> impute_missing_services high_draws swapped_rows two_rows_services =
       Inr \<lparr>columns = service_columns,
            rows = [(1, row (Some ''A'') False False False),
                    (0, row (Some ''A'') False False False)]\<rparr>"
  by (simp add: model_defs example_defs written_positions_def write_labels_def insert_commute)

section \<open>Where the imputed values are written\<close>

text \<open>
  Claim C1 at a concrete table. Row 0 lists its services and is not eligible; row 1 is the one
  eligible row. The single pair of imputed values is written at label 0, the label the merged
  frame gives its first row: with draws of 0.9 against probabilities of 0.5 the services of
  row 0 go from True to False, and the eligible row 1 is not written.
\<close>

theorem non_eligible_row_overwritten:
  "eligible_positions two_rows_services = [1]
   \<and> written_positions two_rows two_rows_services = [0]
   \<and> rows two_rows = [(0, row (Some ''A'') True True False),
                      (1, row (Some ''A'') False False False)]
   \<and> impute_missing_services high_draws two_rows two_rows_services =
       Inr \<lparr>columns = service_columns,
            rows = [(0, row (Some ''A'') False False False),
                    (1, row (Some ''A'') False False False)]\<rparr>"
  by (simp add: model_defs example_defs eligible_positions_def written_positions_def
        write_labels_def)

end
